theory Spec2Isabelle
  imports Complex_Main
begin

section \<open>Numbers, exceptions and data\<close>

text \<open>
  The orbit propagation service computes with Python and numpy floats. Here every float is a
  real number: rounding, overflow, signed zeros, infinities and NaN are not represented.
  Where the source relies on an infinity (\<^verbatim>\<open>float('inf')\<close> as the start of a minimum
  search) or can produce NaN (numpy's \<^verbatim>\<open>0.0 / 0\<close>), the value is an \<open>option\<close> whose
  \<open>None\<close> stands for that special value. A \<^verbatim>\<open>datetime\<close> is the number of seconds since a
  fixed epoch, so that \<^verbatim>\<open>(d1 - d2).total_seconds()\<close> is a difference of reals.

  Inside the propagation loop the source computes with numpy floats, where the square root of
  a negative number is NaN and a division by zero is infinite or NaN, without an exception;
  HOL's \<open>sqrt\<close> and division are total and give a number there. This happens only for a
  negative semi-major axis, an eccentricity outside \<open>[0, 1)\<close> or a zero radius, and for such
  inputs the theorems below state the shape of the result (its length, the literal \<open>vz\<close>),
  never the value of a coordinate.

  Python raises where HOL would silently return a default: a float division by zero, an index
  out of range, an explicit \<^verbatim>\<open>raise ValueError\<close>. Each is a value of \<open>py_exception\<close>, and a
  \<^verbatim>\<open>try\<close> block is a function into \<open>py_exception + 'a\<close>.
\<close>

datatype py_exception =
    ZeroDivisionError string
  | IndexError string
  | ValueError string

fun str_of :: "py_exception \<Rightarrow> string" where
  "str_of (ZeroDivisionError m) = m"
| "str_of (IndexError m) = m"
| "str_of (ValueError m) = m"

text \<open>A trajectory point: the dictionary built at lines 86--96 and 199--209.\<close>

record point =
  datetime :: real
  x :: real
  y :: real
  z :: real
  vx :: real
  vy :: real
  vz :: real
  distance :: real
  source :: string

text \<open>
  The orbital elements dictionary. Its keys are read with \<^verbatim>\<open>elements.get(key, default)\<close> only,
  so an absent key is \<open>None\<close>; the numeric entries are floats and the propulsion tag a string.
\<close>

record elements =
  semi_major_axis :: "real option"
  eccentricity :: "real option"
  inclination :: "real option"
  longitude_ascending_node :: "real option"
  argument_periapsis :: "real option"
  mean_anomaly :: "real option"
  propulsion_type :: "string option"

definition dict_get :: "'a option \<Rightarrow> 'a \<Rightarrow> 'a" where
  "dict_get entry dflt = (case entry of None \<Rightarrow> dflt | Some v \<Rightarrow> v)"

text \<open>\<^verbatim>\<open>int(r)\<close> truncates towards zero; \<^verbatim>\<open>np.radians\<close> converts degrees.\<close>

definition py_int :: "real \<Rightarrow> int" where
  "py_int r = (if 0 \<le> r then \<lfloor>r\<rfloor> else \<lceil>r\<rceil>)"

definition radians :: "real \<Rightarrow> real" where
  "radians d = d * pi / 180"

text \<open>\<^verbatim>\<open>np.arctan2(b, a)\<close>: the angle of the point \<open>(a, b)\<close>, in \<open>(-\<pi>, \<pi>]\<close>.\<close>

definition arctan2 :: "real \<Rightarrow> real \<Rightarrow> real" where
  "arctan2 b a =
     (if 0 < a then arctan (b / a)
      else if a < 0 then (if 0 \<le> b then arctan (b / a) + pi else arctan (b / a) - pi)
      else if 0 < b then pi / 2
      else if b < 0 then - (pi / 2)
      else 0)"

text \<open>\<^verbatim>\<open>v < bound\<close> where \<open>bound\<close> may still be \<^verbatim>\<open>float('inf')\<close> (\<open>None\<close>).\<close>

definition below :: "real \<Rightarrow> real option \<Rightarrow> bool" where
  "below v bound = (case bound of None \<Rightarrow> True | Some b \<Rightarrow> v < b)"

text \<open>\<^verbatim>\<open>bound < v\<close> read the other way: is a distance that may be infinite below \<open>v\<close>?\<close>

definition below' :: "real option \<Rightarrow> real \<Rightarrow> bool" where
  "below' d v = (case d of None \<Rightarrow> False | Some b \<Rightarrow> b < v)"

section \<open>The Kepler equation solver\<close>

text \<open>
  \<^verbatim>\<open>_solve_kepler_equation\<close> (lines 219--249): at most 20 Newton--Raphson iterations, left by
  \<^verbatim>\<open>break\<close> when the derivative is nearly zero or the step is below the tolerance. Both
  \<^verbatim>\<open>break\<close>s leave \<open>E\<close> as it was before the step; the function then returns \<open>E\<close>.
\<close>

fun kepler_loop :: "nat \<Rightarrow> real \<Rightarrow> real \<Rightarrow> real \<Rightarrow> real \<Rightarrow> real" where
  "kepler_loop 0 M ecc tolerance E = E"
| "kepler_loop (Suc k) M ecc tolerance E =
     (let f = E - ecc * sin E - M;
          df = 1 - ecc * cos E
      in if \<bar>df\<bar> < 1 / 10 ^ 12 then E
         else let E_new = E - f / df
              in if \<bar>E_new - E\<bar> < tolerance then E
                 else kepler_loop k M ecc tolerance E_new)"

definition solve_kepler_equation :: "real \<Rightarrow> real \<Rightarrow> real \<Rightarrow> real" where
  "solve_kepler_equation M ecc tolerance =
     kepler_loop 20 M ecc tolerance (if ecc < 8 / 10 then M else pi)"

text \<open>
  The control flow of the same loop alone: does one of the two \<^verbatim>\<open>break\<close> statements run
  within \<open>k\<close> iterations?
\<close>

fun kepler_breaks :: "nat \<Rightarrow> real \<Rightarrow> real \<Rightarrow> real \<Rightarrow> real \<Rightarrow> bool" where
  "kepler_breaks 0 M ecc tolerance E = False"
| "kepler_breaks (Suc k) M ecc tolerance E =
     (let f = E - ecc * sin E - M;
          df = 1 - ecc * cos E
      in if \<bar>df\<bar> < 1 / 10 ^ 12 then True
         else let E_new = E - f / df
              in if \<bar>E_new - E\<bar> < tolerance then True
                 else kepler_breaks k M ecc tolerance E_new)"

text \<open>One Newton--Raphson step, \<^verbatim>\<open>E - f / df\<close>.\<close>

definition newton_step :: "real \<Rightarrow> real \<Rightarrow> real \<Rightarrow> real" where
  "newton_step M ecc E = E - (E - ecc * sin E - M) / (1 - ecc * cos E)"

section \<open>The fallback Keplerian propagator\<close>

text \<open>The body of the \<^verbatim>\<open>for i in range(n_points)\<close> loop, lines 146--210.\<close>

definition propagate_point ::
  "real \<Rightarrow> real \<Rightarrow> real \<Rightarrow> real \<Rightarrow> real \<Rightarrow> real \<Rightarrow> real \<Rightarrow> real \<Rightarrow> real \<Rightarrow> real \<Rightarrow> real \<Rightarrow> nat \<Rightarrow> point" where
  "propagate_point a ecc inc raan argp M0 mu a_m n start_date step_hours i =
     (let hours_elapsed = real i * step_hours;
          t = hours_elapsed * 3600;
          current_time = start_date + hours_elapsed * 3600;
          M = M0 + n * t;
          E = solve_kepler_equation M ecc (1 / 10 ^ 8);
          nu = 2 * arctan2 (sqrt (1 + ecc) * sin (E / 2)) (sqrt (1 - ecc) * cos (E / 2));
          r = a * (1 - ecc * cos E);
          x_orb = r * cos nu;
          y_orb = r * sin nu;
          cos_raan = cos raan; sin_raan = sin raan;
          cos_inc = cos inc; sin_inc = sin inc;
          cos_argp = cos argp; sin_argp = sin argp;
          px = (cos_raan * cos_argp - sin_raan * sin_argp * cos_inc) * x_orb +
               (- cos_raan * sin_argp - sin_raan * cos_argp * cos_inc) * y_orb;
          py = (sin_raan * cos_argp + cos_raan * sin_argp * cos_inc) * x_orb +
               (- sin_raan * sin_argp + cos_raan * cos_argp * cos_inc) * y_orb;
          pz = (sin_argp * sin_inc) * x_orb + (cos_argp * sin_inc) * y_orb;
          h = sqrt (mu * a_m * (1 - ecc ^ 2));
          vr = (mu / h) * ecc * sin nu / 149597870700;
          vt = h / (r * 149597870700);
          vr_day = vr * 86400;
          vt_day = vt * 86400;
          pvx = - vt_day * sin (nu + argp);
          pvy = vt_day * cos (nu + argp);
          pvz = 0
      in \<lparr> datetime = current_time, x = px, y = py, z = pz,
           vx = pvx, vy = pvy, vz = pvz, distance = r,
           source = ''kepler_propagation'' \<rparr>)"

text \<open>
  The \<^verbatim>\<open>try\<close> block of \<^verbatim>\<open>_fallback_propagation\<close> (lines 126--213). The two Python float
  divisions raise on a zero divisor; inside the loop the divisors are numpy floats, which do
  not raise.
\<close>

definition fallback_try :: "elements \<Rightarrow> real \<Rightarrow> real \<Rightarrow> real \<Rightarrow> py_exception + point list" where
  "fallback_try els start_date end_date step_hours =
     (let a = dict_get (semi_major_axis els) 1;
          ecc = dict_get (eccentricity els) 0;
          inc = radians (dict_get (inclination els) 0);
          raan = radians (dict_get (longitude_ascending_node els) 0);
          argp = radians (dict_get (argument_periapsis els) 0);
          M0 = radians (dict_get (mean_anomaly els) 0);
          mu = 132712440018 * 10 ^ 9;
          a_m = a * 149597870700
      in if a_m ^ 3 = 0 then Inl (ZeroDivisionError ''float division by zero'')
         else
           let n = sqrt (mu / (a_m ^ 3));
               total_hours = (end_date - start_date) / 3600
           in if step_hours = 0 then Inl (ZeroDivisionError ''float division by zero'')
              else
                let n_points = py_int (total_hours / step_hours) + 1
                in Inr (map (propagate_point a ecc inc raan argp M0 mu a_m n
                               start_date step_hours) [0..<nat n_points]))"

text \<open>\<^verbatim>\<open>_fallback_propagation\<close>: any exception of the block is logged and becomes \<^verbatim>\<open>[]\<close>.\<close>

definition fallback_propagation :: "elements \<Rightarrow> real \<Rightarrow> real \<Rightarrow> real \<Rightarrow> point list" where
  "fallback_propagation els start_date end_date step_hours =
     (case fallback_try els start_date end_date step_hours of
        Inl e \<Rightarrow> []
      | Inr trajectory_points \<Rightarrow> trajectory_points)"

text \<open>
  \<^verbatim>\<open>propagate_from_elements\<close> (lines 30--104). The poliastro library is not part of the
  repository: \<open>poliastro\<close> is \<open>None\<close> when the import failed, and otherwise the function that
  the library path (lines 53--100) computes, which may raise.
\<close>

type_synonym library = "elements \<Rightarrow> real \<Rightarrow> real \<Rightarrow> real \<Rightarrow> py_exception + point list"

definition propagate_from_elements ::
  "library option \<Rightarrow> elements \<Rightarrow> real \<Rightarrow> real \<Rightarrow> real \<Rightarrow> point list" where
  "propagate_from_elements poliastro els start_date end_date step_hours =
     (case poliastro of
        None \<Rightarrow> fallback_propagation els start_date end_date step_hours
      | Some orbit \<Rightarrow>
          (case orbit els start_date end_date step_hours of
             Inr trajectory_points \<Rightarrow> trajectory_points
           | Inl e \<Rightarrow> fallback_propagation els start_date end_date step_hours))"

section \<open>Intercept computation\<close>

text \<open>
  The first loop of \<^verbatim>\<open>compute_intercept_trajectory\<close> (lines 270--281): the target point
  nearest in time to the requested intercept time, with the scan cut at the first point
  within one day. The state is \<^verbatim>\<open>(min_time_diff, target_position)\<close>.
\<close>

fun find_target :: "point list \<Rightarrow> real \<Rightarrow> real option \<times> point option \<Rightarrow> point option" where
  "find_target [] intercept_time (min_time_diff, target_position) = target_position"
| "find_target (p # ps) intercept_time (min_time_diff, target_position) =
     (let time_diff = \<bar>datetime p - intercept_time\<bar>;
          st = (if below time_diff min_time_diff then (Some time_diff, Some p)
                else (min_time_diff, target_position))
      in if time_diff < 86400 then snd st
         else find_target ps intercept_time st)"

text \<open>
  The second loop (lines 300--311): the interceptor point closest to the chosen target
  position. The state is \<^verbatim>\<open>(min_distance, closest_point)\<close>.
\<close>

definition separation :: "point \<Rightarrow> point \<Rightarrow> real" where
  "separation p target_position =
     (let dx = x p - x target_position;
          dy = y p - y target_position;
          dz = z p - z target_position
      in sqrt (dx ^ 2 + dy ^ 2 + dz ^ 2))"

fun closest_approach ::
  "point list \<Rightarrow> point \<Rightarrow> real option \<times> point option \<Rightarrow> real option \<times> point option" where
  "closest_approach [] target_position (min_distance, closest_point) =
     (min_distance, closest_point)"
| "closest_approach (p # ps) target_position (min_distance, closest_point) =
     (let dist = separation p target_position
      in if below dist min_distance
         then closest_approach ps target_position (Some dist, Some p)
         else closest_approach ps target_position (min_distance, closest_point))"

text \<open>
  Lines 343--351: the propellant fraction of the rocket equation for a specific impulse, and
  the choice of the specific impulse from the propulsion tag of the elements dictionary.
\<close>

definition fuel_fraction :: "real \<Rightarrow> real \<Rightarrow> real" where
  "fuel_fraction isp delta_v_total =
     (let g0 = 981 / 100;
          exhaust_velocity = isp * g0 / 1000;
          mass_ratio = exp (delta_v_total / exhaust_velocity)
      in (mass_ratio - 1) / mass_ratio)"

definition select_isp :: "elements \<Rightarrow> real" where
  "select_isp els =
     (if dict_get (propulsion_type els) ''ion'' = ''ion'' then 3000 else 300)"

text \<open>
  Lines 325--341: the Hohmann transfer from 1 AU to the distance of the target from the
  Sun, giving \<^verbatim>\<open>(delta_v_total, flight_time_days)\<close>.
\<close>

definition hohmann :: "real \<Rightarrow> real \<times> real" where
  "hohmann mission_distance_au =
     (let mu_sun = 132712440018;
          r1 = 1 * (1495978707 / 10);
          r2 = mission_distance_au * (1495978707 / 10);
          a_transfer = (r1 + r2) / 2;
          v1_circular = sqrt (mu_sun / r1);
          v1_transfer = sqrt (mu_sun * (2 / r1 - 1 / a_transfer));
          delta_v_departure = \<bar>v1_transfer - v1_circular\<bar> / 1000;
          delta_v_total = delta_v_departure * (15 / 10);
          flight_time_seconds = pi * sqrt ((a_transfer ^ 3) / mu_sun);
          flight_time_days = flight_time_seconds / 86400
      in (delta_v_total, flight_time_days))"

text \<open>The dictionary returned at lines 360--393, and the one of the handler, lines 397--401.\<close>

record intercept_result =
  intercept_time :: real
  target_position :: "real \<times> real \<times> real"
  interceptor_position :: "(real \<times> real \<times> real) option"
  miss_distance_au :: "real option"
  miss_distance_km :: "real option"
  relative_velocity_au_per_day :: real
  relative_velocity_km_per_s :: real
  interceptor_trajectory :: "point list"
  feasible :: bool
  result_source :: string
  delta_v_required_km_s :: real
  flight_time_days :: real
  fuel_consumed_percent :: real
  success_probability :: real
  data_captured :: "string list"

datatype intercept_dict =
    Success_dict (result: intercept_result)
  | Failure_dict (error: string) (failure_source: string)

fun success :: "intercept_dict \<Rightarrow> bool" where
  "success (Success_dict r) = True"
| "success (Failure_dict e s) = False"

text \<open>
  Lines 313--358: relative velocity and mission parameters,
  \<^verbatim>\<open>(relative_velocity, delta_v_total, flight_time_days, fuel_consumed_percent)\<close>.
\<close>

definition mission_parameters ::
  "elements \<Rightarrow> point \<Rightarrow> point option \<Rightarrow> real \<times> real \<times> real \<times> real" where
  "mission_parameters els tp closest_point =
     (case closest_point of
        Some cp \<Rightarrow>
          (let dvx = vx cp - vx tp;
               dvy = vy cp - vy tp;
               dvz = vz cp - vz tp;
               relative_velocity = sqrt (dvx ^ 2 + dvy ^ 2 + dvz ^ 2);
               mission_distance_au = sqrt ((x tp) ^ 2 + (y tp) ^ 2 + (z tp) ^ 2);
               (delta_v_total, flight_days) = hohmann mission_distance_au;
               isp = select_isp els;
               fuel_consumed = fuel_fraction isp delta_v_total * 100
           in (relative_velocity, delta_v_total, flight_days, fuel_consumed))
      | None \<Rightarrow> (0, 0, 0, 0))"

text \<open>The \<^verbatim>\<open>try\<close> block of \<^verbatim>\<open>compute_intercept_trajectory\<close>, lines 269--393.\<close>

definition intercept_try ::
  "library option \<Rightarrow> elements \<Rightarrow> point list \<Rightarrow> real \<Rightarrow> py_exception + intercept_result" where
  "intercept_try poliastro interceptor_elements target_trajectory t_intercept =
     (case find_target target_trajectory t_intercept (None, None) of
        None \<Rightarrow> Inl (ValueError ''Target position not found at intercept time'')
      | Some tp \<Rightarrow>
          (let intercept_start = t_intercept - 365 * 86400;
               traj = propagate_from_elements poliastro interceptor_elements
                        intercept_start t_intercept 24
           in if traj = [] then Inl (ValueError ''Failed to compute interceptor trajectory'')
              else
                let (min_distance, closest_point) = closest_approach traj tp (None, None);
                    (relative_velocity, delta_v_total, flight_days, fuel_consumed) =
                       mission_parameters interceptor_elements tp closest_point
                in Inr \<lparr> intercept_time = t_intercept,
                         target_position = (x tp, y tp, z tp),
                         interceptor_position =
                           (case closest_point of
                              Some cp \<Rightarrow> Some (x cp, y cp, z cp)
                            | None \<Rightarrow> None),
                         miss_distance_au = min_distance,
                         miss_distance_km = map_option (\<lambda>d. d * (1495978707 / 10)) min_distance,
                         relative_velocity_au_per_day = relative_velocity,
                         relative_velocity_km_per_s =
                           relative_velocity * (1495978707 / 10) / 86400,
                         interceptor_trajectory = traj,
                         feasible = below' min_distance (1 / 100),
                         result_source = ''orbit_propagation'',
                         delta_v_required_km_s = delta_v_total,
                         flight_time_days = flight_days,
                         fuel_consumed_percent = fuel_consumed,
                         success_probability =
                           (if below' min_distance (1 / 1000) then 95 / 100
                            else if below' min_distance (1 / 100) then 75 / 100
                            else 3 / 10),
                         data_captured =
                           (if below' min_distance (1 / 100)
                            then [''High-resolution imagery'', ''Spectrographic analysis'',
                                  ''Magnetic field measurements'', ''Dust particle samples'',
                                  ''Gas composition data'', ''Surface temperature mapping'']
                            else []) \<rparr>))"

text \<open>\<^verbatim>\<open>compute_intercept_trajectory\<close>: the block, and the handler of lines 395--401.\<close>

definition compute_intercept_trajectory ::
  "library option \<Rightarrow> elements \<Rightarrow> point list \<Rightarrow> real \<Rightarrow> intercept_dict" where
  "compute_intercept_trajectory poliastro interceptor_elements target_trajectory t_intercept =
     (case intercept_try poliastro interceptor_elements target_trajectory t_intercept of
        Inr r \<Rightarrow> Success_dict r
      | Inl e \<Rightarrow> Failure_dict (str_of e) ''orbit_propagation'')"

section \<open>Launch windows\<close>

text \<open>
  \<^verbatim>\<open>target_trajectory[j]\<close> for a Python integer \<open>j\<close>: a negative index counts from the end of
  the list, and an index outside \<open>[-len, len)\<close> raises.
\<close>

definition subscript :: "'a list \<Rightarrow> int \<Rightarrow> py_exception + 'a" where
  "subscript xs j =
     (if 0 \<le> j \<and> j < int (length xs) then Inr (xs ! nat j)
      else if j < 0 \<and> - int (length xs) \<le> j then Inr (xs ! nat (int (length xs) + j))
      else Inl (IndexError ''list index out of range''))"

record launch_window =
  launch_date :: real
  intercept_date :: real
  mission_duration_days :: int
  target_distance_au :: real
  estimated_delta_v_au_per_day :: "real option"
  window_feasible :: bool

text \<open>
  Lines 428--448, for the launch index \<open>i\<close> and the intercept point already read. The
  distance is a numpy float, so dividing it by a zero duration does not raise: the quotient
  is NaN or infinite (\<open>None\<close>), and the comparison with 0.1 is then false.
\<close>

definition make_window :: "point \<Rightarrow> point \<Rightarrow> int \<Rightarrow> launch_window" where
  "make_window launch_point intercept_point duration =
     (let dist = separation intercept_point launch_point;
          time_days = duration;
          required_velocity =
            (if time_days = 0 then None else Some (dist / real_of_int time_days))
      in \<lparr> launch_date = datetime launch_point,
           intercept_date = datetime intercept_point,
           mission_duration_days = duration,
           target_distance_au = dist,
           estimated_delta_v_au_per_day = required_velocity,
           window_feasible = below' required_velocity (1 / 10) \<rparr>)"

text \<open>
  The loop \<^verbatim>\<open>for i in range(0, len(target_trajectory), 30)\<close> of lines 424--449, from index
  \<open>i\<close> on, with the windows collected so far.
\<close>

function launch_window_loop ::
  "point list \<Rightarrow> int \<Rightarrow> nat \<Rightarrow> launch_window list \<Rightarrow> py_exception + launch_window list" where
  "launch_window_loop target_trajectory duration i windows =
     (if length target_trajectory \<le> i then Inr windows
      else if int (length target_trajectory) \<le> int i + duration then Inr windows
      else
        (case subscript target_trajectory (int i + duration) of
           Inl e \<Rightarrow> Inl e
         | Inr intercept_point \<Rightarrow>
             (let launch_point = target_trajectory ! i;
                  window = make_window launch_point intercept_point duration
              in launch_window_loop target_trajectory duration (i + 30) (windows @ [window]))))"
  by pat_completeness auto
termination
  by (relation "measure (\<lambda>(target_trajectory, duration, i, windows). length target_trajectory - i)")
    auto

text \<open>
  \<^verbatim>\<open>compute_launch_window\<close> (lines 403--455); the launch site is not read. An exception
  discards the windows found so far.
\<close>

definition compute_launch_window ::
  "point list \<Rightarrow> (string \<rightharpoonup> real) \<Rightarrow> int \<Rightarrow> launch_window list" where
  "compute_launch_window target_trajectory launch_site duration =
     (case launch_window_loop target_trajectory duration 0 [] of
        Inl e \<Rightarrow> []
      | Inr windows \<Rightarrow> windows)"

section \<open>Specification predicates and sample inputs\<close>



text \<open>
  An elements dictionary with no key, one with an inclination and an argument of periapsis
  of 90 degrees, a point at rest on the first axis, and a library path that returns a given
  trajectory whatever the elements.
\<close>

definition bare_elements :: elements where
  "bare_elements = \<lparr> semi_major_axis = None, eccentricity = None, inclination = None,
     longitude_ascending_node = None, argument_periapsis = None, mean_anomaly = None,
     propulsion_type = None \<rparr>"

definition inclined_elements :: elements where
  "inclined_elements = bare_elements \<lparr> inclination := Some 90, argument_periapsis := Some 90 \<rparr>"

definition sample_point :: "real \<Rightarrow> real \<Rightarrow> point" where
  "sample_point t px = \<lparr> datetime = t, x = px, y = 0, z = 0, vx = 0, vy = 0, vz = 0,
     distance = \<bar>px\<bar>, source = ''sample'' \<rparr>"

definition fixed_library :: "point list \<Rightarrow> library" where
  "fixed_library trajectory els start_date end_date step_hours = Inr trajectory"

text \<open>
  For the convergence of the solver: \<open>Es\<close> is the solution of Kepler's equation in
  \<open>[0, \<pi>]\<close>, and \<open>settles M ecc Es k b\<close> says that \<open>k\<close> more iterations from any point between
  \<open>Es\<close> and \<open>\<pi>\<close> that is within \<open>b\<close> of \<open>Es\<close> end with a residual below \<open>10\<^sup>-\<^sup>7\<close>.
\<close>

definition kepler_root :: "real \<Rightarrow> real \<Rightarrow> real \<Rightarrow> bool" where
  "kepler_root M ecc Es \<longleftrightarrow> 0 \<le> Es \<and> Es \<le> pi \<and> Es - ecc * sin Es = M"

definition settles :: "real \<Rightarrow> real \<Rightarrow> real \<Rightarrow> nat \<Rightarrow> real \<Rightarrow> bool" where
  "settles M ecc Es k b \<longleftrightarrow>
     (\<forall>E. Es \<le> E \<and> E \<le> pi \<and> E - Es \<le> b \<longrightarrow>
        \<bar>kepler_loop k M ecc (1 / 10 ^ 8) E - ecc * sin (kepler_loop k M ecc (1 / 10 ^ 8) E) - M\<bar>
          < 1 / 10 ^ 7)"

section \<open>The Kepler solver returns an unconverged iterate\<close>

lemma kepler_breaks_Suc:
  "kepler_breaks (Suc k) M ecc tol E \<longleftrightarrow>
     \<bar>1 - ecc * cos E\<bar> < 1 / 10 ^ 12 \<or> \<bar>newton_step M ecc E - E\<bar> < tol \<or>
     kepler_breaks k M ecc tol (newton_step M ecc E)"
  by (simp add: Let_def newton_step_def)

lemma kepler_loop_Suc:
  "kepler_loop (Suc k) M ecc tol E =
     (if \<bar>1 - ecc * cos E\<bar> < 1 / 10 ^ 12 \<or> \<bar>newton_step M ecc E - E\<bar> < tol then E
      else kepler_loop k M ecc tol (newton_step M ecc E))"
  by (simp add: Let_def newton_step_def)

lemma kepler_loop_no_break:
  "\<not> kepler_breaks k M ecc tol E \<Longrightarrow> kepler_loop k M ecc tol E = (newton_step M ecc ^^ k) E"
proof (induction k arbitrary: E)
  case 0
  then show ?case by simp
next
  case (Suc k)
  from Suc.prems have nb: "\<not> kepler_breaks k M ecc tol (newton_step M ecc E)"
    and c: "\<not> (\<bar>1 - ecc * cos E\<bar> < 1 / 10 ^ 12 \<or> \<bar>newton_step M ecc E - E\<bar> < tol)"
    unfolding kepler_breaks_Suc by blast+
  have "kepler_loop (Suc k) M ecc tol E = kepler_loop k M ecc tol (newton_step M ecc E)"
    unfolding kepler_loop_Suc using c by simp
  also have "\<dots> = (newton_step M ecc ^^ k) (newton_step M ecc E)"
    by (rule Suc.IH [OF nb])
  finally show ?case by (simp add: funpow_swap1)
qed

text \<open>The run from \<open>M = -4\<pi>/5\<close>, \<open>e = 4/5\<close>: every iterate after the first is a multiple of \<open>4\<pi>\<close>.\<close>

lemma step_4pi:
  "newton_step (- (4 * pi / 5)) (4 / 5) (of_int m * (4 * pi)) = of_int (- 4 * m - 1) * (4 * pi)"
proof -
  have s: "sin (of_int m * (4 * pi)) = 0"
    using sin_int_2pin [of "2 * m"] by (simp add: mult.commute mult.left_commute)
  have c: "cos (of_int m * (4 * pi)) = 1"
    using cos_int_2pin [of "2 * m"] by (simp add: mult.commute mult.left_commute)
  show ?thesis
    unfolding newton_step_def s c by (simp add: algebra_simps)
qed

lemma diverge_4pi:
  "\<not> kepler_breaks k (- (4 * pi / 5)) (4 / 5) (1 / 10 ^ 8) (of_int m * (4 * pi))"
proof (induction k arbitrary: m)
  case 0
  show ?case by simp
next
  case (Suc k)
  have c: "cos (of_int m * (4 * pi)) = 1"
    using cos_int_2pin [of "2 * m"] by (simp add: mult.commute mult.left_commute)
  have st: "newton_step (- (4 * pi / 5)) (4 / 5) (of_int m * (4 * pi))
              = of_int (- 4 * m - 1) * (4 * pi)"
    by (rule step_4pi)
  have "5 * m + 1 \<noteq> 0" by presburger
  then have "1 \<le> \<bar>5 * m + 1\<bar>" by linarith
  then have "1 \<le> \<bar>of_int (5 * m + 1) :: real\<bar>"
    by (metis of_int_1_le_iff of_int_abs)
  then have big: "4 * pi \<le> \<bar>of_int (5 * m + 1) * (4 * pi)\<bar>"
    by (simp add: abs_mult)
  have "of_int (- 4 * m - 1) * (4 * pi) - of_int m * (4 * pi) = - (of_int (5 * m + 1) * (4 * pi))"
    by (simp add: algebra_simps)
  then have far: "\<not> \<bar>of_int (- 4 * m - 1) * (4 * pi) - of_int m * (4 * pi)\<bar> < 1 / 10 ^ 8"
    using big pi_ge_two by simp
  have d: "\<not> \<bar>1 - 4 / 5 * cos (of_int m * (4 * pi))\<bar> < (1::real) / 10 ^ 12"
    by (simp add: c)
  show ?case
    unfolding kepler_breaks_Suc st using Suc.IH [of "- 4 * m - 1"] far d by blast
qed

lemma iterate_4pi:
  "(newton_step (- (4 * pi / 5)) (4 / 5) ^^ k) (of_int m * (4 * pi))
     = of_int (((\<lambda>j. - 4 * j - 1) ^^ k) m) * (4 * pi)"
proof (induction k arbitrary: m)
  case 0
  show ?case by simp
next
  case (Suc k)
  show ?case
    by (simp only: funpow_Suc_right o_apply step_4pi Suc.IH)
qed

lemma step_from_pi: "newton_step (- (4 * pi / 5)) (4 / 5) pi = of_int 0 * (4 * pi)"
  by (simp add: newton_step_def)

lemma diverge_from_pi: "\<not> kepler_breaks 20 (- (4 * pi / 5)) (4 / 5) (1 / 10 ^ 8) pi"
proof -
  have l: "\<not> \<bar>1 - 4 / 5 * cos pi\<bar> < (1::real) / 10 ^ 12" by simp
  have "\<not> \<bar>of_int 0 * (4 * pi) - pi\<bar> < 1 / 10 ^ 8"
    using pi_ge_two by simp
  then have "\<not> kepler_breaks (Suc 19) (- (4 * pi / 5)) (4 / 5) (1 / 10 ^ 8) pi"
    unfolding kepler_breaks_Suc step_from_pi using l diverge_4pi [of 19 0] by blast
  then show ?thesis by simp
qed

lemma funpow_19: "((\<lambda>j::int. - 4 * j - 1) ^^ 19) 0 = - 54975581389"
  by (simp add: eval_nat_numeral)

lemma iterate_from_pi:
  "(newton_step (- (4 * pi / 5)) (4 / 5) ^^ 20) pi = - (219902325556 * pi)"
proof -
  have "(newton_step (- (4 * pi / 5)) (4 / 5) ^^ Suc 19) pi
          = (newton_step (- (4 * pi / 5)) (4 / 5) ^^ 19) (of_int 0 * (4 * pi))"
    by (simp only: funpow_Suc_right o_apply step_from_pi)
  also have "\<dots> = of_int (- 54975581389) * (4 * pi)"
    by (simp only: iterate_4pi funpow_19)
  finally show ?thesis by simp
qed

lemma residual_from_pi:
  "1 < \<bar>- (219902325556 * pi) - 4 / 5 * sin (- (219902325556 * pi)) - (- (4 * pi / 5))\<bar>"
proof -
  have s: "sin (219902325556 * pi) = 0"
    using sin_int_2pin [of 109951162778] by (simp add: mult.commute)
  have "- (219902325556 * pi) - 4 / 5 * sin (- (219902325556 * pi)) - (- (4 * pi / 5))
          = - ((219902325556 - 4 / 5) * pi)"
    by (simp add: s algebra_simps)
  moreover have "1 < (219902325556 - 4 / 5) * pi"
    using pi_ge_two by simp
  ultimately show ?thesis by simp
qed

text \<open>
  Claim C2 against the code. The function is documented as solving Kepler's equation for
  \<open>E\<close>, and it has no failure result: after the loop it returns \<open>E\<close> whatever happened. For the
  mean anomaly \<open>-4\<pi>/5\<close> and the eccentricity \<open>4/5\<close> the derivative stays at \<open>1/5\<close> or above and
  no step is below the tolerance, so that neither \<^verbatim>\<open>break\<close> runs in the 20 iterations; the
  value returned is the last iterate, and it misses the equation by more than 1.
\<close>

theorem kepler_returns_unconverged:
  "\<not> kepler_breaks 20 (- (4 * pi / 5)) (4 / 5) (1 / 10 ^ 8) pi \<and>
   1 < \<bar>solve_kepler_equation (- (4 * pi / 5)) (4 / 5) (1 / 10 ^ 8)
          - 4 / 5 * sin (solve_kepler_equation (- (4 * pi / 5)) (4 / 5) (1 / 10 ^ 8))
          - (- (4 * pi / 5))\<bar>"
proof -
  have "solve_kepler_equation (- (4 * pi / 5)) (4 / 5) (1 / 10 ^ 8)
          = kepler_loop 20 (- (4 * pi / 5)) (4 / 5) (1 / 10 ^ 8) pi"
    by (simp add: solve_kepler_equation_def)
  also have "\<dots> = (newton_step (- (4 * pi / 5)) (4 / 5) ^^ 20) pi"
    by (rule kepler_loop_no_break [OF diverge_from_pi])
  also have "\<dots> = - (219902325556 * pi)"
    by (rule iterate_from_pi)
  finally have e: "solve_kepler_equation (- (4 * pi / 5)) (4 / 5) (1 / 10 ^ 8)
                     = - (219902325556 * pi)" .
  show ?thesis
    unfolding e using diverge_from_pi residual_from_pi by blast
qed

section \<open>The fallback propagator: velocity out of the plane, and validation\<close>

lemma vz_propagate_point:
  "vz (propagate_point a ecc inc raan argp M0 mu a_m n start_date step_hours i) = 0"
  by (simp add: propagate_point_def Let_def)

lemma fallback_cases:
  "fallback_propagation els s e st =
     (if dict_get (semi_major_axis els) 1 = 0 \<or> st = 0 then []
      else map (propagate_point (dict_get (semi_major_axis els) 1) (dict_get (eccentricity els) 0)
                  (radians (dict_get (inclination els) 0))
                  (radians (dict_get (longitude_ascending_node els) 0))
                  (radians (dict_get (argument_periapsis els) 0))
                  (radians (dict_get (mean_anomaly els) 0))
                  (132712440018 * 10 ^ 9)
                  (dict_get (semi_major_axis els) 1 * 149597870700)
                  (sqrt (132712440018 * 10 ^ 9 / (dict_get (semi_major_axis els) 1 * 149597870700) ^ 3))
                  s st)
             [0..<nat (py_int ((e - s) / 3600 / st) + 1)])"
  by (simp add: fallback_propagation_def fallback_try_def Let_def)

lemma kepler_at_zero: "0 < tol \<Longrightarrow> solve_kepler_equation 0 0 tol = 0"
  by (simp add: solve_kepler_equation_def eval_nat_numeral)

lemma point_at_epoch:
  "propagate_point 1 0 inc 0 argp 0 mu a_m n 0 24 0 =
     \<lparr> datetime = 0, x = cos argp, y = sin argp * cos inc, z = sin argp * sin inc,
       vx = - (sqrt (mu * a_m) / 149597870700 * 86400 * sin argp),
       vy = sqrt (mu * a_m) / 149597870700 * 86400 * cos argp, vz = 0, distance = 1,
       source = ''kepler_propagation'' \<rparr>"
  by (simp add: propagate_point_def Let_def kepler_at_zero arctan2_def)

lemma inclined_traj:
  "map z (fallback_propagation inclined_elements 0 0 24) = [1]"
  unfolding fallback_cases
  by (simp add: inclined_elements_def bare_elements_def dict_get_def py_int_def radians_def point_at_epoch)

lemma bare_traj:
  "map z (fallback_propagation (inclined_elements \<lparr> inclination := Some 0 \<rparr>) 0 0 24) = [0]"
  unfolding fallback_cases
  by (simp add: inclined_elements_def bare_elements_def dict_get_def py_int_def radians_def point_at_epoch)

lemma inclined_len: "length (fallback_propagation inclined_elements 0 0 24) = 1"
  using inclined_traj by (metis length_map length_Cons list.size(3) One_nat_def)

text \<open>
  Claim C9. Every point of a trajectory of the fallback propagator has \<open>vz = 0\<close>, whatever
  the inclination, while \<open>z\<close> depends on the inclination: at the epoch, with an argument of
  periapsis of 90 degrees, \<open>z\<close> is 1 AU for an inclination of 90 degrees and 0 for an
  inclination of 0. The velocity is therefore not in the frame of the position.
\<close>

theorem fallback_vz_always_zero:
  "(\<forall>p \<in> set (fallback_propagation els start_date end_date step_hours). vz p = 0) \<and>
   map z (fallback_propagation inclined_elements 0 0 24) = [1] \<and>
   map z (fallback_propagation (inclined_elements \<lparr> inclination := Some 0 \<rparr>) 0 0 24) = [0]"
proof -
  have "\<forall>p \<in> set (fallback_propagation els start_date end_date step_hours). vz p = 0"
    unfolding fallback_cases by (auto simp: vz_propagate_point)
  then show ?thesis using inclined_traj bare_traj by blast
qed

theorem fallback_vz_always_zero_witness:
  "fallback_propagation inclined_elements 0 0 24 \<noteq> [] \<and>
   map vz (fallback_propagation inclined_elements 0 0 24) = [0] \<and>
   map z (fallback_propagation inclined_elements 0 0 24) = [1]"
proof -
  obtain p where p: "fallback_propagation inclined_elements 0 0 24 = [p]"
    using inclined_len by (metis length_0_conv length_Suc_conv One_nat_def)
  have "vz p = 0"
    using fallback_vz_always_zero [of inclined_elements 0 0 24] p by simp
  then show ?thesis using p inclined_traj by simp
qed




section \<open>The rocket equation\<close>

lemma fuel_fraction_alt:
  "fuel_fraction isp dv = 1 - exp (- (dv / (isp * (981 / 100) / 1000)))"
  by (simp add: fuel_fraction_def Let_def exp_minus field_simps)

text \<open>
  Claim C6. The specific impulse that the estimator selects is positive, and for a fixed
  positive specific impulse the propellant fraction is strictly increasing in the velocity
  change and, for a velocity change that is not negative, lies in \<open>[0, 1)\<close>. (Over the
  reals: a float \<^verbatim>\<open>exp\<close> saturates.)
\<close>

theorem fuel_fraction_monotone:
  "0 < select_isp els \<and>
   (0 < isp \<longrightarrow>
      (dv1 < dv2 \<longrightarrow> fuel_fraction isp dv1 < fuel_fraction isp dv2) \<and>
      (0 \<le> dv \<longrightarrow> 0 \<le> fuel_fraction isp dv \<and> fuel_fraction isp dv < 1))"
proof -
  have sel: "0 < select_isp els" by (simp add: select_isp_def)
  have gen: "(dv1 < dv2 \<longrightarrow> fuel_fraction isp dv1 < fuel_fraction isp dv2) \<and>
     (0 \<le> dv \<longrightarrow> 0 \<le> fuel_fraction isp dv \<and> fuel_fraction isp dv < 1)" if isp: "0 < isp"
  proof -
    from isp have ev: "0 < isp * (981 / 100) / 1000" by simp
    have mono: "dv1 < dv2 \<longrightarrow> fuel_fraction isp dv1 < fuel_fraction isp dv2"
      unfolding fuel_fraction_alt using ev by (simp add: divide_strict_right_mono)
    have rng: "0 \<le> dv \<longrightarrow> 0 \<le> fuel_fraction isp dv \<and> fuel_fraction isp dv < 1"
      unfolding fuel_fraction_alt using ev by simp
    show ?thesis using mono rng by blast
  qed
  show ?thesis using sel gen by blast
qed

theorem fuel_fraction_monotone_witness:
  "0 < select_isp bare_elements \<and> (1 :: real) < 2 \<and>
   fuel_fraction (select_isp bare_elements) 1 < fuel_fraction (select_isp bare_elements) 2 \<and>
   (0 :: real) \<le> 1 \<and> 0 \<le> fuel_fraction (select_isp bare_elements) 1 \<and>
   fuel_fraction (select_isp bare_elements) 1 < 1"
  using fuel_fraction_monotone [of bare_elements "select_isp bare_elements" 1 2 1] by simp

section \<open>The two searches of the intercept computation\<close>









lemma fixed_propagate [simp]:
  "propagate_from_elements (Some (fixed_library tr)) els s e st = tr"
  by (simp add: propagate_from_elements_def fixed_library_def)

lemma sample_point_fields:
  "datetime (sample_point t a) = t" "x (sample_point t a) = a" "y (sample_point t a) = 0"
  "z (sample_point t a) = 0" "vx (sample_point t a) = 0" "vy (sample_point t a) = 0"
  "vz (sample_point t a) = 0"
  by (simp_all add: sample_point_def)

lemma separation_samples: "separation (sample_point s a) (sample_point t b) = \<bar>a - b\<bar>"
  by (simp add: separation_def sample_point_def)




section \<open>Failures of the intercept computation\<close>



section \<open>The propulsion tag\<close>

text \<open>
  Claim C7, as amended. The specific impulse is 3000 s when the propulsion tag is \<^verbatim>\<open>'ion'\<close> or
  absent and 300 s for every other tag: an unrecognised tag gives the estimate of the tag
  \<^verbatim>\<open>'chemical'\<close>, without any failure.
\<close>

theorem unknown_tag_defaults:
  "select_isp els = (if propulsion_type els = None \<or> propulsion_type els = Some ''ion''
                     then 3000 else 300) \<and>
   (tag \<noteq> ''ion'' \<longrightarrow>
      mission_parameters (els \<lparr> propulsion_type := Some tag \<rparr>) tp cp
        = mission_parameters (els \<lparr> propulsion_type := Some ''chemical'' \<rparr>) tp cp)"
  by (auto simp: select_isp_def dict_get_def mission_parameters_def split: option.splits)

theorem unknown_tag_defaults_witness:
  "''nuclear'' \<noteq> ''ion'' \<and>
   select_isp (bare_elements \<lparr> propulsion_type := Some ''nuclear'' \<rparr>) = 300 \<and>
   mission_parameters (bare_elements \<lparr> propulsion_type := Some ''nuclear'' \<rparr>)
       (sample_point 0 1) (Some (sample_point 0 0))
     = mission_parameters (bare_elements \<lparr> propulsion_type := Some ''chemical'' \<rparr>)
       (sample_point 0 1) (Some (sample_point 0 0))"
proof -
  have h: "''nuclear'' \<noteq> ''ion''" by simp
  show ?thesis
    using h unknown_tag_defaults [of "bare_elements \<lparr> propulsion_type := Some ''nuclear'' \<rparr>"
        "''nuclear''" "sample_point 0 1" "Some (sample_point 0 0)"]
    by simp
qed

text \<open>
  Claim C7 as stated fails: with the tag \<^verbatim>\<open>'nuclear'\<close> the computation succeeds, with a
  specific impulse of 300 s.
\<close>

theorem unknown_tag_counterexample:
  "success (compute_intercept_trajectory (Some (fixed_library [sample_point 0 0]))
      (bare_elements \<lparr> propulsion_type := Some ''nuclear'' \<rparr>) [sample_point 0 1] 0) \<and>
   select_isp (bare_elements \<lparr> propulsion_type := Some ''nuclear'' \<rparr>) = 300"
  by (simp add: compute_intercept_trajectory_def intercept_try_def Let_def below_def split_def
      select_isp_def dict_get_def sample_point_def)


section \<open>The velocity change of the transfer\<close>

lemma hohmann_fst:
  "fst (hohmann d) =
     \<bar>sqrt (132712440018 * (2 / (1495978707 / 10) - 1 / ((1495978707 / 10 + d * (1495978707 / 10)) / 2)))
        - sqrt (132712440018 / (1495978707 / 10))\<bar> / 1000 * (15 / 10)"
  by (simp add: hohmann_def Let_def)

lemma sample_result_delta_v:
  "delta_v_required_km_s (result (compute_intercept_trajectory (Some (fixed_library [sample_point 0 0]))
      bare_elements [sample_point 0 3] 0)) = fst (hohmann 3)"
  by (simp add: compute_intercept_trajectory_def intercept_try_def Let_def below_def split_def
      sample_point_fields mission_parameters_def)

lemma sample_result_rest:
  "flight_time_days (result (compute_intercept_trajectory (Some (fixed_library [sample_point 0 0]))
      bare_elements [sample_point 0 3] 0)) = snd (hohmann 3)"
  "fuel_consumed_percent (result (compute_intercept_trajectory (Some (fixed_library [sample_point 0 0]))
      bare_elements [sample_point 0 3] 0)) = fuel_fraction 3000 (fst (hohmann 3)) * 100"
  by (simp_all add: compute_intercept_trajectory_def intercept_try_def Let_def below_def split_def
      sample_point_fields mission_parameters_def select_isp_def bare_elements_def dict_get_def)

lemma hohmann_snd:
  "snd (hohmann d) * 86400 =
     pi * sqrt (((1495978707 / 10 + d * (1495978707 / 10)) / 2) ^ 3 / 132712440018)"
  by (simp add: hohmann_def Let_def)

text \<open>
  Claim C5 against the code. The gravitational parameter is in \<open>km\<^sup>3/s\<^sup>2\<close> and the radii in
  km, so the two speeds are in km/s; the code divides their difference by 1000 all the same.
  For a target at 3 AU the reported total velocity change is a thousandth of
  \<open>|v_transfer - v_circular| \<times> 1.5\<close>, and not that value. The flight time is
  \<open>\<pi> sqrt (a\<^sup>3 / \<mu>)\<close> seconds, reported in days, and the propellant fraction, reported in
  percent, is that of the rocket equation for the reported velocity change.
\<close>

theorem delta_v_thousandth:
  "delta_v_required_km_s (result (compute_intercept_trajectory (Some (fixed_library [sample_point 0 0]))
      bare_elements [sample_point 0 3] 0)) * 1000
     = \<bar>sqrt (132712440018 * (2 / (1495978707 / 10) - 1 / ((1495978707 / 10 + 3 * (1495978707 / 10)) / 2)))
        - sqrt (132712440018 / (1495978707 / 10))\<bar> * (15 / 10) \<and>
   delta_v_required_km_s (result (compute_intercept_trajectory (Some (fixed_library [sample_point 0 0]))
      bare_elements [sample_point 0 3] 0))
     \<noteq> \<bar>sqrt (132712440018 * (2 / (1495978707 / 10) - 1 / ((1495978707 / 10 + 3 * (1495978707 / 10)) / 2)))
        - sqrt (132712440018 / (1495978707 / 10))\<bar> * (15 / 10) \<and>
   flight_time_days (result (compute_intercept_trajectory (Some (fixed_library [sample_point 0 0]))
      bare_elements [sample_point 0 3] 0)) * 86400
     = pi * sqrt (((1495978707 / 10 + 3 * (1495978707 / 10)) / 2) ^ 3 / 132712440018) \<and>
   fuel_consumed_percent (result (compute_intercept_trajectory (Some (fixed_library [sample_point 0 0]))
      bare_elements [sample_point 0 3] 0))
     = fuel_fraction 3000 (delta_v_required_km_s (result (compute_intercept_trajectory
         (Some (fixed_library [sample_point 0 0])) bare_elements [sample_point 0 3] 0))) * 100"
proof -
  let ?vt = "sqrt (132712440018 * (2 / (1495978707 / 10) - 1 / ((1495978707 / 10 + 3 * (1495978707 / 10)) / 2)))"
  let ?vc = "sqrt (132712440018 / (1495978707 / 10))"
  have ne: "?vt \<noteq> ?vc" by (simp only: real_sqrt_eq_iff) simp
  then have pos: "0 < \<bar>?vt - ?vc\<bar>" by simp
  have v: "fst (hohmann 3) = \<bar>?vt - ?vc\<bar> / 1000 * (15 / 10)"
    by (rule hohmann_fst)
  have 1: "fst (hohmann 3) * 1000 = \<bar>?vt - ?vc\<bar> * (15 / 10)"
    unfolding v by simp
  have 2: "fst (hohmann 3) \<noteq> \<bar>?vt - ?vc\<bar> * (15 / 10)"
    unfolding v using pos by simp
  have 3: "snd (hohmann 3) * 86400
             = pi * sqrt (((1495978707 / 10 + 3 * (1495978707 / 10)) / 2) ^ 3 / 132712440018)"
    by (rule hohmann_snd)
  show ?thesis
    unfolding sample_result_delta_v sample_result_rest using 1 2 3 by blast
qed

section \<open>The launch windows that are reported\<close>

lemma subscript_forward:
  "0 \<le> d \<Longrightarrow> i + nat d < length xs \<Longrightarrow> subscript xs (int i + d) = Inr (xs ! (i + nat d))"
  by (simp add: subscript_def nat_add_distrib)

lemma stride_count_step:
  fixes n D i :: nat
  assumes "i + D < n"
  shows "(n - D - i + 29) div 30 = Suc ((n - D - (i + 30) + 29) div 30)"
proof (cases "i + 30 + D \<le> n")
  case True
  then have "n - D - i + 29 = (n - D - (i + 30) + 29) + 30" by simp
  then show ?thesis by (metis div_add_self2 zero_neq_numeral Suc_eq_plus1)
next
  case False
  then have a: "n - D - (i + 30) = 0" by simp
  have "1 \<le> n - D - i" and "n - D - i < 30" using assms False by simp_all
  then have "(n - D - i + 29) div 30 = 1" by simp
  then show ?thesis using a by simp
qed

lemma stride_count_done:
  fixes n D i :: nat
  assumes "n \<le> i + D"
  shows "(n - D - i + 29) div 30 = 0"
  using assms by simp

lemma launch_window_loop_closed:
  assumes "0 \<le> d"
  shows "launch_window_loop traj d i windows =
     Inr (windows @ map (\<lambda>j. make_window (traj ! (i + 30 * j)) (traj ! (i + 30 * j + nat d)) d)
                       [0..<(length traj - nat d - i + 29) div 30])"
  using assms
proof (induction traj d i windows rule: launch_window_loop.induct)
  case (1 traj d i windows)
  let ?W = "\<lambda>i j. make_window (traj ! (i + 30 * j)) (traj ! (i + 30 * j + nat d)) d"
  show ?case
  proof (cases "i + nat d < length traj")
    case True
    then have c1: "\<not> length traj \<le> i" and c2: "\<not> int (length traj) \<le> int i + d"
      using "1.prems" by simp_all
    have sub: "subscript traj (int i + d) = Inr (traj ! (i + nat d))"
      by (rule subscript_forward [OF "1.prems" True])
    have IH: "launch_window_loop traj d (i + 30) (windows @ [make_window (traj ! i) (traj ! (i + nat d)) d])
        = Inr ((windows @ [make_window (traj ! i) (traj ! (i + nat d)) d]) @
               map (?W (i + 30)) [0..<(length traj - nat d - (i + 30) + 29) div 30])"
      by (rule "1.IH" [OF c1 c2 sub refl refl "1.prems"])
    have cnt: "(length traj - nat d - i + 29) div 30
                 = Suc ((length traj - nat d - (i + 30) + 29) div 30)"
      by (rule stride_count_step [OF True])
    have shift: "map (?W i) [0..<Suc c] = ?W i 0 # map (?W (i + 30)) [0..<c]" for c
    proof -
      have "[0..<Suc c] = 0 # [Suc 0..<Suc c]"
        by (rule upt_conv_Cons) simp
      also have "[Suc 0..<Suc c] = map Suc [0..<c]"
        by (simp only: map_Suc_upt)
      finally have "[0..<Suc c] = 0 # map Suc [0..<c]" .
      then show ?thesis by (simp add: o_def algebra_simps del: upt_Suc)
    qed
    have "launch_window_loop traj d i windows
            = launch_window_loop traj d (i + 30) (windows @ [make_window (traj ! i) (traj ! (i + nat d)) d])"
      by (subst launch_window_loop.simps) (simp add: c1 c2 sub Let_def)
    then show ?thesis
      unfolding IH cnt shift by simp
  next
    case False
    then have stop: "length traj \<le> i \<or> int (length traj) \<le> int i + d"
      using "1.prems" by linarith
    have "(length traj - nat d - i + 29) div 30 = 0"
      using False by (intro stride_count_done) simp
    moreover have "launch_window_loop traj d i windows = Inr windows"
      using stop by (subst launch_window_loop.simps) auto
    ultimately show ?thesis by simp
  qed
qed

lemma sample_windows:
  "compute_launch_window [sample_point 0 0, sample_point 86400 1] Map.empty 1
     = [make_window (sample_point 0 0) (sample_point 86400 1) 1]"
proof -
  have z: "(0 :: int) \<le> 1" by simp
  show ?thesis
    unfolding compute_launch_window_def launch_window_loop_closed [OF z]
    by (simp add: upt_rec)
qed

text \<open>
  Claim C8, as amended. For a mission duration of \<open>d \<ge> 0\<close> samples, the scanner reports one
  window for every index \<open>i = 0, 30, 60, \<dots>\<close> with \<open>i + d\<close> inside the trajectory, in that
  order, from sample \<open>i\<close> to sample \<open>i + d\<close>: their straight-line distance, that distance
  divided by \<open>d\<close>, and a flag that says whether this quotient is below 0.1. Windows whose
  flag is false are reported too, and neither the propagator, nor the intercept search, nor
  the cost estimator is run.
\<close>

theorem launch_windows_every_stride:
  assumes "0 \<le> d"
  shows "compute_launch_window traj site d =
     map (\<lambda>k. make_window (traj ! (30 * k)) (traj ! (30 * k + nat d)) d)
       [0..<(length traj - nat d + 29) div 30] \<and>
     (\<forall>w \<in> set (compute_launch_window traj site d).
        window_feasible w \<longleftrightarrow>
          d \<noteq> 0 \<and> target_distance_au w / real_of_int d < 1 / 10)"
proof -
  have eq: "compute_launch_window traj site d =
     map (\<lambda>k. make_window (traj ! (30 * k)) (traj ! (30 * k + nat d)) d)
       [0..<(length traj - nat d + 29) div 30]"
    unfolding compute_launch_window_def launch_window_loop_closed [OF assms] by simp
  have "\<forall>w \<in> set (compute_launch_window traj site d).
        window_feasible w \<longleftrightarrow> d \<noteq> 0 \<and> target_distance_au w / real_of_int d < 1 / 10"
    unfolding eq by (auto simp: make_window_def Let_def below'_def)
  then show ?thesis using eq by blast
qed

theorem launch_windows_every_stride_witness:
  "(0 :: int) \<le> 1 \<and>
   compute_launch_window [sample_point 0 0, sample_point 86400 1] Map.empty 1
     = [make_window (sample_point 0 0) (sample_point 86400 1) 1] \<and>
   target_distance_au (make_window (sample_point 0 0) (sample_point 86400 1) 1) = 1 \<and>
   \<not> window_feasible (make_window (sample_point 0 0) (sample_point 86400 1) 1)"
proof -
  have z: "(0 :: int) \<le> 1" by simp
  have d: "target_distance_au (make_window (sample_point 0 0) (sample_point 86400 1) 1) = 1"
    by (simp add: make_window_def Let_def separation_samples)
  have m: "make_window (sample_point 0 0) (sample_point 86400 1) 1
             \<in> set (compute_launch_window [sample_point 0 0, sample_point 86400 1] Map.empty 1)"
    using launch_windows_every_stride [OF z, of "[sample_point 0 0, sample_point 86400 1]" Map.empty]
    by (simp add: upt_rec)
  have "\<not> window_feasible (make_window (sample_point 0 0) (sample_point 86400 1) 1)"
    using launch_windows_every_stride [OF z, of "[sample_point 0 0, sample_point 86400 1]" Map.empty]
      m d by simp
  then show ?thesis
    using launch_windows_every_stride [OF z, of "[sample_point 0 0, sample_point 86400 1]" Map.empty] d
    by (simp add: upt_rec)
qed

text \<open>
  Claim C8 as stated fails: for two samples 1 AU apart and a duration of one sample, the
  only window needs 1 AU per day, is not feasible, and is reported.
\<close>

theorem infeasible_window_counterexample:
  "map window_feasible (compute_launch_window [sample_point 0 0, sample_point 86400 1] Map.empty 1)
     = [False] \<and>
   map target_distance_au (compute_launch_window [sample_point 0 0, sample_point 86400 1] Map.empty 1)
     = [1]"
  unfolding sample_windows
  by (simp add: make_window_def Let_def separation_samples below'_def)

section \<open>The residual of the Kepler solver\<close>

text \<open>
  Newton--Raphson on \<open>E - e sin E - M\<close> for \<open>0 \<le> M \<le> \<pi>\<close>: the function is increasing and
  convex on \<open>[0, \<pi>]\<close>, so from a point between the solution and \<open>\<pi>\<close> the iterates decrease
  to the solution, each step takes the error to at most two thirds and to at most
  \<open>9.5\<close> times its square, and sixteen steps bring any error below \<open>4\<close> under
  \<open>5 \<times> 10\<^sup>-\<^sup>8\<close>. The other half, \<open>\<pi> < M < 2\<pi>\<close>, is the mirror image.
\<close>


lemma pi_ge_three: "3 \<le> pi"
proof -
  have "sin (pi / 6) \<le> pi / 6" by (rule sin_x_le_x) simp
  then show ?thesis by (simp add: sin_30)
qed

lemma sin_lipschitz: "\<bar>sin a - sin b\<bar> \<le> \<bar>a - b\<bar>" for a b :: real
proof -
  have "\<bar>sin a - sin b\<bar> = 2 * \<bar>sin ((a - b) / 2)\<bar> * \<bar>cos ((a + b) / 2)\<bar>"
    by (simp add: sin_diff_sin abs_mult)
  also have "\<dots> \<le> 2 * \<bar>sin ((a - b) / 2)\<bar> * 1"
    by (intro mult_left_mono) simp_all
  also have "\<dots> \<le> 2 * \<bar>(a - b) / 2\<bar>"
    using abs_sin_x_le_abs_x [of "(a - b) / 2"] by simp
  finally show ?thesis by simp
qed

lemma cos_lipschitz: "\<bar>cos a - cos b\<bar> \<le> \<bar>a - b\<bar>" for a b :: real
proof -
  have "\<bar>cos a - cos b\<bar> = 2 * \<bar>sin ((a + b) / 2)\<bar> * \<bar>sin ((b - a) / 2)\<bar>"
    by (simp add: cos_diff_cos abs_mult)
  also have "\<dots> \<le> 2 * 1 * \<bar>sin ((b - a) / 2)\<bar>"
    by (intro mult_right_mono mult_left_mono) simp_all
  also have "\<dots> \<le> 2 * \<bar>(b - a) / 2\<bar>"
    using abs_sin_x_le_abs_x [of "(b - a) / 2"] by simp
  finally show ?thesis by simp
qed

text \<open>The sine is concave on \<open>[0, \<pi>]\<close>: it lies below each of its tangents there.\<close>

lemma sin_below_tangent:
  fixes u v :: real
  assumes u: "0 \<le> u" "u \<le> pi" and v: "0 \<le> v" "v \<le> pi"
  shows "sin v \<le> sin u + cos u * (v - u)"
proof -
  define g where "g w = sin u + cos u * (w - u) - sin w" for w
  have dg: "DERIV g w :> cos u - cos w" for w
    unfolding g_def by (auto intro!: derivative_eq_intros)
  have "g u \<le> g v"
  proof (cases "u \<le> v")
    case True
    show ?thesis
    proof (rule DERIV_nonneg_imp_nondecreasing [OF True])
      fix w assume w: "u \<le> w" "w \<le> v"
      have "cos w \<le> cos u"
        using w u v by (intro cos_monotone_0_pi_le) auto
      then show "\<exists>d. DERIV g w :> d \<and> 0 \<le> d" using dg [of w] by auto
    qed
  next
    case False
    then have le: "v \<le> u" by simp
    show ?thesis
    proof (rule DERIV_nonpos_imp_nonincreasing [OF le])
      fix w assume w: "v \<le> w" "w \<le> u"
      have "cos u \<le> cos w"
        using w u v by (intro cos_monotone_0_pi_le) auto
      then show "\<exists>d. DERIV g w :> d \<and> d \<le> 0" using dg [of w] by auto
    qed
  qed
  then show ?thesis by (simp add: g_def)
qed

text \<open>Everywhere, the sine is at most \<open>(v - u)\<^sup>2 / 2\<close> below its tangent at \<open>u\<close>.\<close>

lemma sin_above_parabola:
  fixes u v :: real
  shows "sin u + cos u * (v - u) - (v - u)\<^sup>2 / 2 \<le> sin v"
proof -
  define g where "g w = sin w - sin u - cos u * (w - u) + (w - u)\<^sup>2 / 2" for w
  have dg: "DERIV g w :> cos w - cos u + (w - u)" for w
    unfolding g_def by (auto intro!: derivative_eq_intros simp: field_simps)
  have "g u \<le> g v"
  proof (cases "u \<le> v")
    case True
    show ?thesis
    proof (rule DERIV_nonneg_imp_nondecreasing [OF True])
      fix w assume w: "u \<le> w" "w \<le> v"
      have "\<bar>cos w - cos u\<bar> \<le> \<bar>w - u\<bar>" by (rule cos_lipschitz)
      then have "0 \<le> cos w - cos u + (w - u)" using w by linarith
      then show "\<exists>d. DERIV g w :> d \<and> 0 \<le> d" using dg [of w] by auto
    qed
  next
    case False
    then have le: "v \<le> u" by simp
    show ?thesis
    proof (rule DERIV_nonpos_imp_nonincreasing [OF le])
      fix w assume w: "v \<le> w" "w \<le> u"
      have "\<bar>cos w - cos u\<bar> \<le> \<bar>w - u\<bar>" by (rule cos_lipschitz)
      then have "cos w - cos u + (w - u) \<le> 0" using w by linarith
      then show "\<exists>d. DERIV g w :> d \<and> d \<le> 0" using dg [of w] by auto
    qed
  qed
  then show ?thesis by (simp add: g_def)
qed

lemma x_cos_le_sin:
  fixes w :: real
  assumes "0 \<le> w" "w \<le> pi"
  shows "w * cos w \<le> sin w"
proof -
  define g where "g v = sin v - v * cos v" for v :: real
  have dg: "DERIV g v :> v * sin v" for v
    unfolding g_def by (auto intro!: derivative_eq_intros)
  have "g 0 \<le> g w"
  proof (rule DERIV_nonneg_imp_nondecreasing [OF assms(1)])
    fix v :: real assume v: "0 \<le> v" "v \<le> w"
    have "0 \<le> sin v" using v assms by (intro sin_ge_zero) auto
    then have "0 \<le> v * sin v" using v by simp
    then show "\<exists>d. DERIV g v :> d \<and> 0 \<le> d" using dg [of v] by auto
  qed
  then show ?thesis by (simp add: g_def)
qed

lemma two_cos_plus_x_sin:
  fixes w :: real
  assumes "0 \<le> w" "w \<le> pi"
  shows "2 * cos w + w * sin w \<le> 2"
proof -
  define g where "g v = 2 * cos v + v * sin v" for v :: real
  have dg: "DERIV g v :> v * cos v - sin v" for v
    unfolding g_def by (auto intro!: derivative_eq_intros)
  have "g w \<le> g 0"
  proof (rule DERIV_nonpos_imp_nonincreasing [OF assms(1)])
    fix v :: real assume v: "0 \<le> v" "v \<le> w"
    have "v * cos v \<le> sin v" using v assms by (intro x_cos_le_sin) auto
    then show "\<exists>d. DERIV g v :> d \<and> d \<le> 0" using dg [of v] by auto
  qed
  then show ?thesis by (simp add: g_def)
qed

lemma kepler_increasing:
  fixes u v ecc :: real
  assumes "0 \<le> ecc" "u \<le> v"
  shows "(1 - ecc) * (v - u) \<le> (v - ecc * sin v) - (u - ecc * sin u)"
    and "(v - ecc * sin v) - (u - ecc * sin u) \<le> (1 + ecc) * (v - u)"
proof -
  have "\<bar>sin v - sin u\<bar> \<le> v - u" using sin_lipschitz [of v u] assms by simp
  then have "\<bar>ecc * (sin v - sin u)\<bar> \<le> ecc * (v - u)"
    using assms by (simp add: abs_mult mult_left_mono)
  then show "(1 - ecc) * (v - u) \<le> (v - ecc * sin v) - (u - ecc * sin u)"
    and "(v - ecc * sin v) - (u - ecc * sin u) \<le> (1 + ecc) * (v - u)"
    by (simp_all add: algebra_simps abs_le_iff)
qed

lemma kepler_root_exists:
  fixes M ecc :: real
  assumes "0 \<le> M" "M \<le> pi"
  shows "\<exists>Es. kepler_root M ecc Es"
proof -
  have "\<exists>w. 0 \<le> w \<and> w \<le> pi \<and> w - ecc * sin w = M"
    by (rule IVT') (use assms in \<open>auto intro!: continuous_intros\<close>)
  then show ?thesis by (auto simp: kepler_root_def)
qed

lemma residual_lipschitz:
  fixes M ecc Es E :: real
  assumes "0 \<le> ecc" "Es - ecc * sin Es = M"
  shows "\<bar>E - ecc * sin E - M\<bar> \<le> (1 + ecc) * \<bar>E - Es\<bar>"
proof (cases "Es \<le> E")
  case True
  have nn: "0 \<le> ecc * (E - Es)" using True assms(1) by simp
  have lo: "(1 - ecc) * (E - Es) \<le> E - ecc * sin E - M"
    and hi: "E - ecc * sin E - M \<le> (1 + ecc) * (E - Es)"
    using kepler_increasing [OF assms(1) True] assms(2) by simp_all
  have "- ((1 + ecc) * (E - Es)) \<le> (1 - ecc) * (E - Es)"
    using True by (simp add: algebra_simps)
  then have "\<bar>E - ecc * sin E - M\<bar> \<le> (1 + ecc) * (E - Es)"
    using lo hi by (simp add: abs_le_iff)
  then show ?thesis using True by simp
next
  case False
  then have le: "E \<le> Es" by simp
  have lo: "(1 - ecc) * (Es - E) \<le> - (E - ecc * sin E - M)"
    and hi: "- (E - ecc * sin E - M) \<le> (1 + ecc) * (Es - E)"
    using kepler_increasing [OF assms(1) le] assms(2) by simp_all
  have "- ((1 + ecc) * (Es - E)) \<le> (1 - ecc) * (Es - E)"
    using le by (simp add: algebra_simps)
  then have "\<bar>E - ecc * sin E - M\<bar> \<le> (1 + ecc) * (Es - E)"
    using lo hi by (simp add: abs_le_iff)
  then show ?thesis using le by simp
qed

lemma contraction_third:
  fixes ecc Es E :: real
  assumes e: "0 \<le> ecc" "ecc \<le> 1" and r: "0 \<le> Es" "Es \<le> E" "E \<le> pi"
  shows "(1 - ecc * cos E) * (E - Es) / 3 \<le> (E - Es) - ecc * (sin E - sin Es)"
proof -
  define g where "g w = (w - Es) - ecc * (sin w - sin Es) - (1 - ecc * cos w) * (w - Es) / 3" for w
  have dg: "DERIV g w :> 2 / 3 * (1 - ecc * cos w) - ecc * sin w * (w - Es) / 3" for w
    unfolding g_def by (auto intro!: derivative_eq_intros simp: field_simps)
  have "g Es \<le> g E"
  proof (rule DERIV_nonneg_imp_nondecreasing [OF r(2)])
    fix w assume w: "Es \<le> w" "w \<le> E"
    have w0: "0 \<le> w" "w \<le> pi" using w r by auto
    have s: "0 \<le> sin w" using w0 by (intro sin_ge_zero)
    have "ecc * sin w * (w - Es) \<le> ecc * sin w * w"
      using s e r w by (intro mult_left_mono) auto
    also have "\<dots> = ecc * (w * sin w)" by simp
    also have "\<dots> \<le> ecc * (2 - 2 * cos w)"
      using two_cos_plus_x_sin [OF w0] e by (intro mult_left_mono) auto
    also have "\<dots> \<le> 2 - 2 * ecc * cos w"
      using e by (simp add: algebra_simps)
    finally have "0 \<le> 2 / 3 * (1 - ecc * cos w) - ecc * sin w * (w - Es) / 3" by simp
    then show "\<exists>d. DERIV g w :> d \<and> 0 \<le> d" using dg [of w] by blast
  qed
  then show ?thesis by (simp add: g_def)
qed

lemma good_step:
  fixes M ecc Es E :: real
  assumes e: "0 \<le> ecc" "ecc \<le> 95 / 100" and root: "kepler_root M ecc Es"
    and E: "Es \<le> E" "E \<le> pi"
  shows "Es \<le> newton_step M ecc E" "newton_step M ecc E \<le> E"
    "newton_step M ecc E - Es \<le> 2 / 3 * (E - Es)"
    "newton_step M ecc E - Es \<le> 19 / 2 * (E - Es)\<^sup>2"
proof -
  from root have Es: "0 \<le> Es" "Es \<le> pi" and eq: "Es - ecc * sin Es = M"
    by (auto simp: kepler_root_def)
  define d where "d = 1 - ecc * cos E"
  define f where "f = E - ecc * sin E - M"
  define eps where "eps = E - Es"
  have eps0: "0 \<le> eps" using E by (simp add: eps_def)
  have "ecc * cos E \<le> ecc * 1" using e by (intro mult_left_mono) auto
  then have d_lo: "1 / 20 \<le> d" using e by (simp add: d_def)
  then have d_pos: "0 < d" by simp
  have f_eq: "f = eps - ecc * (sin E - sin Es)"
    using eq by (simp add: f_def eps_def algebra_simps)
  have f_nonneg: "0 \<le> f"
  proof -
    have "(1 - ecc) * (E - Es) \<le> (E - ecc * sin E) - (Es - ecc * sin Es)"
      by (rule kepler_increasing [OF e(1) E(1)])
    moreover have "0 \<le> (1 - ecc) * (E - Es)" using e E by simp
    ultimately show ?thesis using eq by (simp add: f_def)
  qed
  have f_le: "f \<le> d * eps"
  proof -
    have "sin Es \<le> sin E + cos E * (Es - E)"
      using E Es by (intro sin_below_tangent) auto
    then have "ecc * sin Es \<le> ecc * (sin E + cos E * (Es - E))"
      using e by (intro mult_left_mono) auto
    then show ?thesis by (simp add: f_eq d_def eps_def algebra_simps)
  qed
  have f_third: "d * eps / 3 \<le> f"
    unfolding f_eq d_def eps_def using e Es E by (intro contraction_third) auto
  have f_quad: "d * eps - f \<le> ecc * eps\<^sup>2 / 2"
  proof -
    have "sin E + cos E * (Es - E) - (Es - E)\<^sup>2 / 2 \<le> sin Es"
      by (rule sin_above_parabola)
    then have "ecc * (sin E + cos E * (Es - E) - (Es - E)\<^sup>2 / 2) \<le> ecc * sin Es"
      using e by (intro mult_left_mono) auto
    moreover have "(Es - E)\<^sup>2 = eps\<^sup>2" by (simp add: eps_def power2_commute)
    ultimately show ?thesis by (simp add: f_eq d_def eps_def algebra_simps)
  qed
  have step: "newton_step M ecc E - Es = eps - f / d"
    by (simp add: newton_step_def f_def d_def eps_def)
  have q1: "f / d \<le> eps" using f_le d_pos by (simp add: pos_divide_le_eq mult.commute)
  have q2: "0 \<le> f / d" using f_nonneg d_pos by simp
  have q3: "eps / 3 \<le> f / d"
    using f_third d_pos by (simp add: pos_le_divide_eq mult.commute)
  have q4: "eps - f / d \<le> 19 / 2 * eps\<^sup>2"
  proof -
    have "eps - f / d = (d * eps - f) / d" using d_pos by (simp add: field_simps)
    also have "\<dots> \<le> (ecc * eps\<^sup>2 / 2) / d"
      by (rule divide_right_mono [OF f_quad]) (use d_pos in simp)
    also have "\<dots> \<le> (95 / 100 * eps\<^sup>2 / 2) / d"
      using e d_pos by (intro divide_right_mono mult_right_mono) auto
    also have "\<dots> \<le> (95 / 100 * eps\<^sup>2 / 2) / (1 / 20)"
      using d_lo by (intro divide_left_mono) auto
    also have "\<dots> = 19 / 2 * eps\<^sup>2" by simp
    finally show ?thesis .
  qed
  show "Es \<le> newton_step M ecc E" using step q1 by simp
  show "newton_step M ecc E \<le> E" using step q2 by (simp add: eps_def)
  show "newton_step M ecc E - Es \<le> 2 / 3 * (E - Es)" using step q3 by (simp add: eps_def)
  show "newton_step M ecc E - Es \<le> 19 / 2 * (E - Es)\<^sup>2" using step q4 by (simp add: eps_def)
qed



lemma derivative_bounds:
  fixes ecc E :: real
  assumes "0 \<le> ecc" "ecc \<le> c" "c < 1"
  shows "1 - c \<le> 1 - ecc * cos E" "1 - ecc * cos E \<le> 1 + c"
proof -
  have "\<bar>ecc * cos E\<bar> \<le> ecc * 1"
    unfolding abs_mult using assms by (intro mult_mono) auto
  then show "1 - c \<le> 1 - ecc * cos E" "1 - ecc * cos E \<le> 1 + c"
    using assms by (simp_all add: abs_le_iff)
qed

text \<open>A step below the tolerance means a small residual at the point the loop returns.\<close>

lemma small_step_residual:
  fixes M ecc E :: real
  assumes e: "0 \<le> ecc" "ecc \<le> 95 / 100"
    and small: "\<bar>newton_step M ecc E - E\<bar> < 1 / 10 ^ 8"
  shows "\<bar>E - ecc * sin E - M\<bar> < 1 / 10 ^ 7"
proof -
  define d where "d = 1 - ecc * cos E"
  have d: "1 / 20 \<le> d" "d \<le> 2"
    using derivative_bounds [OF e(1) e(2), of E] by (simp_all add: d_def)
  then have dpos: "0 < d" by simp
  have "E - ecc * sin E - M = (E - newton_step M ecc E) * d"
    using dpos by (simp add: newton_step_def d_def)
  then have "\<bar>E - ecc * sin E - M\<bar> = \<bar>newton_step M ecc E - E\<bar> * d"
    using dpos by (simp add: abs_mult abs_minus_commute)
  also have "\<dots> \<le> \<bar>newton_step M ecc E - E\<bar> * 2"
    using d by (intro mult_left_mono) auto
  also have "\<dots> < 1 / 10 ^ 7" using small by simp
  finally show ?thesis .
qed

lemma settles_0:
  fixes M ecc Es b :: real
  assumes e: "0 \<le> ecc" "ecc \<le> 95 / 100" and root: "kepler_root M ecc Es"
    and b: "b \<le> 5 / 10 ^ 8"
  shows "settles M ecc Es 0 b"
  unfolding settles_def
proof (intro allI impI)
  fix E assume E: "Es \<le> E \<and> E \<le> pi \<and> E - Es \<le> b"
  from root have eq: "Es - ecc * sin Es = M" by (simp add: kepler_root_def)
  have "\<bar>E - ecc * sin E - M\<bar> \<le> (1 + ecc) * \<bar>E - Es\<bar>"
    by (rule residual_lipschitz [OF e(1) eq])
  also have "\<dots> \<le> (1 + 95 / 100) * (5 / 10 ^ 8)"
    using e E b by (intro mult_mono) auto
  also have "\<dots> < 1 / 10 ^ 7" by simp
  finally show "\<bar>kepler_loop 0 M ecc (1 / 10 ^ 8) E - ecc * sin (kepler_loop 0 M ecc (1 / 10 ^ 8) E) - M\<bar>
          < 1 / 10 ^ 7" by simp
qed

lemma settles_Suc:
  fixes M ecc Es b b' :: real
  assumes e: "0 \<le> ecc" "ecc \<le> 95 / 100" and root: "kepler_root M ecc Es"
    and prev: "settles M ecc Es k b"
    and shrink: "2 / 3 * b' \<le> b \<or> 19 / 2 * b'\<^sup>2 \<le> b"
  shows "settles M ecc Es (Suc k) b'"
  unfolding settles_def
proof (intro allI impI)
  fix E assume "Es \<le> E \<and> E \<le> pi \<and> E - Es \<le> b'"
  then have E: "Es \<le> E" "E \<le> pi" and close: "E - Es \<le> b'" by auto
  let ?N = "newton_step M ecc E"
  let ?R = "kepler_loop (Suc k) M ecc (1 / 10 ^ 8) E"
  have "1 / 20 \<le> 1 - ecc * cos E"
    using derivative_bounds [OF e(1) e(2), of E] by simp
  then have nd: "\<not> \<bar>1 - ecc * cos E\<bar> < 1 / 10 ^ 12" by simp
  show "\<bar>?R - ecc * sin ?R - M\<bar> < 1 / 10 ^ 7"
  proof (cases "\<bar>?N - E\<bar> < 1 / 10 ^ 8")
    case True
    then have "?R = E" unfolding kepler_loop_Suc by simp
    then show ?thesis using small_step_residual [OF e True] by simp
  next
    case False
    then have R: "?R = kepler_loop k M ecc (1 / 10 ^ 8) ?N"
      unfolding kepler_loop_Suc using nd by simp
    note g = good_step [OF e root E]
    have "?N - Es \<le> b"
      using shrink
    proof
      assume "2 / 3 * b' \<le> b"
      then show ?thesis using g(3) close by simp
    next
      assume q: "19 / 2 * b'\<^sup>2 \<le> b"
      have "(E - Es)\<^sup>2 \<le> b'\<^sup>2" using E close by (intro power_mono) auto
      then show ?thesis using g(4) q by simp
    qed
    moreover have "Es \<le> ?N" "?N \<le> pi" using g(1) g(2) E by auto
    ultimately show ?thesis
      using prev unfolding settles_def R by blast
  qed
qed

lemma settles_from_pi:
  fixes M ecc Es :: real
  assumes e: "0 \<le> ecc" "ecc \<le> 95 / 100" and root: "kepler_root M ecc Es"
  shows "settles M ecc Es 19 4" "settles M ecc Es 20 4"
proof -
  have s: "settles M ecc Es k' b'"
    if "settles M ecc Es k b" "k' = Suc k" "2 / 3 * b' \<le> b \<or> 19 / 2 * b'\<^sup>2 \<le> b" for k k' b b'
    using settles_Suc [OF e root that(1) that(3)] that(2) by simp
  have "settles M ecc Es 0 (5 / 10 ^ 8)" by (rule settles_0 [OF e root]) simp
  then have "settles M ecc Es 1 (7 / 10 ^ 5)" by (rule s) (simp_all add: power2_eq_square)
  then have "settles M ecc Es 2 (27 / 10 ^ 4)" by (rule s) (simp_all add: power2_eq_square)
  then have "settles M ecc Es 3 (16 / 10 ^ 3)" by (rule s) (simp_all add: power2_eq_square)
  then have "settles M ecc Es 4 (4 / 10 ^ 2)" by (rule s) (simp_all add: power2_eq_square)
  then have "settles M ecc Es 5 (6 / 10 ^ 2)" by (rule s) simp_all
  then have "settles M ecc Es 6 (9 / 10 ^ 2)" by (rule s) simp_all
  then have "settles M ecc Es 7 (135 / 10 ^ 3)" by (rule s) simp_all
  then have "settles M ecc Es 8 (2 / 10)" by (rule s) simp_all
  then have "settles M ecc Es 9 (3 / 10)" by (rule s) simp_all
  then have "settles M ecc Es 10 (45 / 100)" by (rule s) simp_all
  then have "settles M ecc Es 11 (67 / 100)" by (rule s) simp_all
  then have "settles M ecc Es 12 1" by (rule s) simp_all
  then have "settles M ecc Es 13 (3 / 2)" by (rule s) simp_all
  then have "settles M ecc Es 14 (9 / 4)" by (rule s) simp_all
  then have "settles M ecc Es 15 (27 / 8)" by (rule s) simp_all
  then have "settles M ecc Es 16 4" by (rule s) simp_all
  then have "settles M ecc Es 17 4" by (rule s) simp_all
  then have "settles M ecc Es 18 4" by (rule s) simp_all
  then show a: "settles M ecc Es 19 4" by (rule s) simp_all
  then show "settles M ecc Es 20 4" by (rule s) simp_all
qed



lemma three_sin_four_cos: "3 * sin w + 4 * cos w \<le> 5" for w :: real
proof -
  have "(3 * a + 4 * b)\<^sup>2 + (4 * a - 3 * b)\<^sup>2 = 25 * (a\<^sup>2 + b\<^sup>2)" for a b :: real
    by (simp add: power2_eq_square algebra_simps)
  then have "(3 * sin w + 4 * cos w)\<^sup>2 + (4 * sin w - 3 * cos w)\<^sup>2 = 25 * ((sin w)\<^sup>2 + (cos w)\<^sup>2)"
    by blast
  then have id: "(3 * sin w + 4 * cos w)\<^sup>2 + (4 * sin w - 3 * cos w)\<^sup>2 = 25"
    by simp
  have "0 \<le> (4 * sin w - 3 * cos w)\<^sup>2" by (rule zero_le_power2)
  then have "(3 * sin w + 4 * cos w)\<^sup>2 \<le> 25" using id by linarith
  then have "(3 * sin w + 4 * cos w)\<^sup>2 \<le> 5\<^sup>2" by simp
  then show ?thesis by (rule power2_le_imp_le) simp
qed

text \<open>
  The first step from the initial guess \<open>M\<close>, for an eccentricity below 0.8 and \<open>M\<close> in
  \<open>[0, \<pi>]\<close>: it lands between the solution and \<open>\<pi>\<close>.
\<close>

lemma first_step:
  fixes M ecc Es :: real
  assumes e: "0 \<le> ecc" "ecc \<le> 8 / 10" and M: "0 \<le> M" "M \<le> pi"
    and root: "kepler_root M ecc Es"
  shows "Es \<le> newton_step M ecc M" "newton_step M ecc M \<le> pi"
proof -
  from root have eq: "Es - ecc * sin Es = M" by (simp add: kepler_root_def)
  define d where "d = 1 - ecc * cos M"
  define s where "s = ecc * sin M / d"
  have d: "2 / 10 \<le> d"
    using derivative_bounds [OF e(1) e(2), of M] by (simp add: d_def)
  then have dpos: "0 < d" by simp
  have sinM: "0 \<le> sin M" using M by (intro sin_ge_zero)
  have N: "newton_step M ecc M = M + s"
    by (simp add: newton_step_def s_def d_def)
  have s0: "0 \<le> s" using e sinM dpos by (simp add: s_def)
  have sd: "s * d = ecc * sin M" using dpos by (simp add: s_def)
  have up: "M + s \<le> pi"
  proof (cases "pi / 2 \<le> M")
    case True
    have "cos M \<le> cos (pi / 2)"
      using True M by (intro cos_monotone_0_pi_le) auto
    then have "cos M \<le> 0" by simp
    then have "ecc * cos M \<le> 0" using e by (simp add: mult_nonneg_nonpos)
    then have "1 \<le> d" by (simp add: d_def)
    then have "ecc * sin M / d \<le> ecc * sin M / 1"
      using e sinM by (intro divide_left_mono) auto
    then have "s \<le> ecc * sin M" by (simp add: s_def)
    also have "\<dots> \<le> 1 * sin M" using e sinM by (intro mult_right_mono) auto
    also have "\<dots> = sin (pi - M)" by simp
    also have "\<dots> \<le> pi - M" using M by (intro sin_x_le_x) auto
    finally show ?thesis by simp
  next
    case False
    have "ecc * (3 * sin M + 4 * cos M) \<le> 4"
    proof (cases "0 \<le> 3 * sin M + 4 * cos M")
      case True
      have "ecc * (3 * sin M + 4 * cos M) \<le> 8 / 10 * 5"
        using e True three_sin_four_cos [of M] by (intro mult_mono) auto
      then show ?thesis by simp
    next
      case False
      then have "ecc * (3 * sin M + 4 * cos M) \<le> 0"
        using e by (intro mult_nonneg_nonpos) auto
      then show ?thesis by simp
    qed
    then have "3 * (ecc * sin M) \<le> 4 * d" by (simp add: d_def algebra_simps)
    then have "3 * (s * d) \<le> 4 * d" by (simp only: sd)
    then have "3 * s \<le> 4" using dpos by simp
    moreover have "3 \<le> pi" by (rule pi_ge_three)
    ultimately show ?thesis using False by simp
  qed
  show "newton_step M ecc M \<le> pi" using up N by simp
  have res: "0 \<le> (M + s) - ecc * sin (M + s) - M"
  proof -
    have "sin (M + s) \<le> sin M + cos M * ((M + s) - M)"
      using M s0 up by (intro sin_below_tangent) auto
    then have "ecc * sin (M + s) \<le> ecc * (sin M + cos M * s)"
      using e by (intro mult_left_mono) auto
    also have "\<dots> = ecc * sin M + ecc * cos M * s" by (simp add: algebra_simps)
    also have "\<dots> = s * d + ecc * cos M * s" by (simp only: sd)
    also have "\<dots> = s" by (simp add: d_def algebra_simps)
    finally show ?thesis by simp
  qed
  show "Es \<le> newton_step M ecc M"
  proof (rule ccontr)
    assume "\<not> Es \<le> newton_step M ecc M"
    then have lt: "M + s < Es" using N by simp
    then have le: "M + s \<le> Es" by simp
    have "(1 - ecc) * (Es - (M + s)) \<le> (Es - ecc * sin Es) - ((M + s) - ecc * sin (M + s))"
      by (rule kepler_increasing [OF e(1) le])
    moreover have "0 < (1 - ecc) * (Es - (M + s))" using e lt by simp
    ultimately show False using res eq by simp
  qed
qed

text \<open>The mirror image \<open>E \<mapsto> 2\<pi> - E\<close>, \<open>M \<mapsto> 2\<pi> - M\<close> of a run is a run.\<close>

lemma newton_step_mirror:
  "newton_step (2 * pi - M) ecc (2 * pi - E) = 2 * pi - newton_step M ecc E"
proof -
  have num: "2 * pi - E - ecc * sin (2 * pi - E) - (2 * pi - M) = - (E - ecc * sin E - M)"
    by simp
  show ?thesis
    unfolding newton_step_def cos_2pi_minus num minus_divide_left [symmetric] by simp
qed

lemma kepler_loop_mirror:
  "kepler_loop k (2 * pi - M) ecc tol (2 * pi - E) = 2 * pi - kepler_loop k M ecc tol E"
proof (induction k arbitrary: E)
  case 0
  show ?case by simp
next
  case (Suc k)
  have "\<bar>newton_step (2 * pi - M) ecc (2 * pi - E) - (2 * pi - E)\<bar> = \<bar>newton_step M ecc E - E\<bar>"
    unfolding newton_step_mirror by (simp add: abs_minus_commute)
  then show ?case
    unfolding kepler_loop_Suc cos_2pi_minus
    by (simp add: newton_step_mirror Suc.IH)
qed

lemma residual_first_half:
  fixes M ecc :: real
  assumes e: "0 \<le> ecc" "ecc \<le> 95 / 100" and M: "0 \<le> M" "M \<le> pi"
  shows "\<bar>solve_kepler_equation M ecc (1 / 10 ^ 8)
           - ecc * sin (solve_kepler_equation M ecc (1 / 10 ^ 8)) - M\<bar> < 1 / 10 ^ 7"
proof -
  from kepler_root_exists [OF M] obtain Es where root: "kepler_root M ecc Es" by blast
  then have Es: "0 \<le> Es" "Es \<le> pi" by (auto simp: kepler_root_def)
  show ?thesis
  proof (cases "ecc < 8 / 10")
    case False
    then have S: "solve_kepler_equation M ecc (1 / 10 ^ 8) = kepler_loop 20 M ecc (1 / 10 ^ 8) pi"
      by (simp add: solve_kepler_equation_def)
    have "pi - Es \<le> 4" using Es pi_less_4 by simp
    then show ?thesis
      using settles_from_pi(2) [OF e root] Es unfolding settles_def S by simp
  next
    case True
    then have e8: "ecc \<le> 8 / 10" by simp
    let ?N = "newton_step M ecc M"
    have S: "solve_kepler_equation M ecc (1 / 10 ^ 8) = kepler_loop (Suc 19) M ecc (1 / 10 ^ 8) M"
      using True by (simp add: solve_kepler_equation_def)
    have "1 / 20 \<le> 1 - ecc * cos M"
      using derivative_bounds [OF e(1) e(2), of M] by simp
    then have nd: "\<not> \<bar>1 - ecc * cos M\<bar> < 1 / 10 ^ 12" by simp
    show ?thesis
    proof (cases "\<bar>?N - M\<bar> < 1 / 10 ^ 8")
      case small: True
      then have "solve_kepler_equation M ecc (1 / 10 ^ 8) = M"
        unfolding S kepler_loop_Suc by simp
      then show ?thesis using small_step_residual [OF e small] by simp
    next
      case False
      then have R: "solve_kepler_equation M ecc (1 / 10 ^ 8) = kepler_loop 19 M ecc (1 / 10 ^ 8) ?N"
        unfolding S kepler_loop_Suc using nd by simp
      note fs = first_step [OF e(1) e8 M root]
      have "?N - Es \<le> 4" using fs Es pi_less_4 by simp
      then show ?thesis
        using settles_from_pi(1) [OF e root] fs unfolding settles_def R by simp
    qed
  qed
qed

text \<open>
  Claim C4. For a mean anomaly in \<open>[0, 2\<pi>)\<close> and an eccentricity in \<open>[0, 0.95]\<close>, the
  value \<open>E\<close> that the solver returns for the tolerance \<open>10\<^sup>-\<^sup>8\<close> satisfies
  \<open>|E - e sin E - M| < 10\<^sup>-\<^sup>7\<close> (over the reals).
\<close>

theorem kepler_residual_small:
  fixes M ecc :: real
  assumes "0 \<le> M" "M < 2 * pi" "0 \<le> ecc" "ecc \<le> 95 / 100"
  shows "\<bar>solve_kepler_equation M ecc (1 / 10 ^ 8)
           - ecc * sin (solve_kepler_equation M ecc (1 / 10 ^ 8)) - M\<bar> < 1 / 10 ^ 7"
proof (cases "M \<le> pi")
  case True
  show ?thesis by (rule residual_first_half [OF assms(3) assms(4) assms(1) True])
next
  case False
  define M' where "M' = 2 * pi - M"
  have M': "0 \<le> M'" "M' \<le> pi" using False assms by (simp_all add: M'_def)
  have M_eq: "M = 2 * pi - M'" by (simp add: M'_def)
  let ?S' = "solve_kepler_equation M' ecc (1 / 10 ^ 8)"
  have S: "solve_kepler_equation M ecc (1 / 10 ^ 8) = 2 * pi - ?S'"
  proof -
    have "(if ecc < 8 / 10 then M else pi) = 2 * pi - (if ecc < 8 / 10 then M' else pi)"
      by (simp add: M'_def)
    then show ?thesis
      unfolding solve_kepler_equation_def
      by (simp only: M_eq [symmetric] kepler_loop_mirror [of 20 M' ecc, unfolded M_eq [symmetric]])
  qed
  have "\<bar>?S' - ecc * sin ?S' - M'\<bar> < 1 / 10 ^ 7"
    by (rule residual_first_half [OF assms(3) assms(4) M'])
  moreover have "2 * pi - ?S' - ecc * sin (2 * pi - ?S') - M = - (?S' - ecc * sin ?S' - M')"
    by (simp add: M'_def)
  then have "\<bar>2 * pi - ?S' - ecc * sin (2 * pi - ?S') - M\<bar> = \<bar>?S' - ecc * sin ?S' - M'\<bar>"
    by (simp only: abs_minus)
  ultimately show ?thesis unfolding S by (simp only:)
qed

theorem kepler_residual_small_witness:
  "(0 :: real) \<le> 1 \<and> (1 :: real) < 2 * pi \<and> (0 :: real) \<le> 1 / 2 \<and> (1 / 2 :: real) \<le> 95 / 100 \<and>
   \<bar>solve_kepler_equation 1 (1 / 2) (1 / 10 ^ 8)
      - 1 / 2 * sin (solve_kepler_equation 1 (1 / 2) (1 / 10 ^ 8)) - 1\<bar> < 1 / 10 ^ 7"
proof -
  have a: "(0 :: real) \<le> 1" and c: "(0 :: real) \<le> 1 / 2" and d: "(1 / 2 :: real) \<le> 95 / 100"
    by simp_all
  have b: "(1 :: real) < 2 * pi" using pi_ge_two by simp
  show ?thesis
    using a b c d kepler_residual_small [OF a b c d] by blast
qed


end
